theory Spec2Isabelle
  imports Main "HOL-Library.Word"
begin

unbundle bit_operations_syntax

section \<open>The user entity (domain/src/entities/user.py)\<close>

text \<open>
  A \<open>UUID\<close> is a 128-bit number. A \<open>datetime\<close> in UTC is modelled as the number of
  microseconds since the epoch, the resolution of Python's \<open>datetime\<close>.
\<close>

type_synonym uuid = "128 word"

type_synonym datetime = int

text \<open>
  The dataclass \<open>User\<close>. After \<open>__post_init__\<close> none of \<open>id\<close>, \<open>created_at\<close> and
  \<open>updated_at\<close> is \<open>None\<close>, so the fields of the record are not optional; the optional
  constructor arguments are arguments of \<open>User_init\<close> below. The field \<open>id\<close> is called
  \<open>user_id\<close> here, since \<open>id\<close> is the identity function of HOL.
\<close>

record user =
  user_id :: uuid
  email :: string
  name :: string
  is_active :: bool
  created_at :: datetime
  updated_at :: datetime

text \<open>
  The two sources of nondeterminism of the program are the system clock
  (\<open>datetime.now(timezone.utc)\<close>) and the random generator behind \<open>uuid4()\<close>. The world
  holds what each of them answers at its n-th call, and how many calls were made so far.
  Nothing is assumed of either: the clock may stand still or jump, the generator may repeat.
\<close>

record world =
  clock :: "nat \<Rightarrow> datetime"
  clock_reads :: nat
  uuid_source :: "nat \<Rightarrow> uuid"
  uuid_draws :: nat

definition datetime_now :: "world \<Rightarrow> datetime \<times> world" where
  "datetime_now w = (clock w (clock_reads w), w\<lparr>clock_reads := Suc (clock_reads w)\<rparr>)"

definition uuid4 :: "world \<Rightarrow> uuid \<times> world" where
  "uuid4 w = (uuid_source w (uuid_draws w), w\<lparr>uuid_draws := Suc (uuid_draws w)\<rparr>)"

text \<open>
  The generated \<open>__init__\<close> followed by \<open>__post_init__\<close>: an argument that is \<open>None\<close> is
  replaced, in the order id, created_at, updated_at, each timestamp by a clock reading of
  its own.
\<close>

definition User_init ::
  "uuid option \<Rightarrow> string \<Rightarrow> string \<Rightarrow> bool \<Rightarrow> datetime option \<Rightarrow> datetime option
    \<Rightarrow> world \<Rightarrow> user \<times> world" where
  "User_init id_arg em nm active created updated w =
     (let (i, w1) = (case id_arg of None \<Rightarrow> uuid4 w | Some i \<Rightarrow> (i, w));
          (c, w2) = (case created of None \<Rightarrow> datetime_now w1 | Some c \<Rightarrow> (c, w1));
          (u, w3) = (case updated of None \<Rightarrow> datetime_now w2 | Some u \<Rightarrow> (u, w2))
      in (\<lparr>user_id = i, email = em, name = nm, is_active = active,
           created_at = c, updated_at = u\<rparr>, w3))"

definition update_name :: "string \<Rightarrow> user \<Rightarrow> world \<Rightarrow> user \<times> world" where
  "update_name new_name u w =
     (let (t, w') = datetime_now w in (u\<lparr>name := new_name, updated_at := t\<rparr>, w'))"

definition deactivate :: "user \<Rightarrow> world \<Rightarrow> user \<times> world" where
  "deactivate u w =
     (let (t, w') = datetime_now w in (u\<lparr>is_active := False, updated_at := t\<rparr>, w'))"

definition activate :: "user \<Rightarrow> world \<Rightarrow> user \<times> world" where
  "activate u w =
     (let (t, w') = datetime_now w in (u\<lparr>is_active := True, updated_at := t\<rparr>, w'))"

text \<open>A sequence of mutations of one entity, applied from left to right.\<close>

datatype mutation = UpdateName string | Deactivate | Activate

fun apply_mutation :: "mutation \<Rightarrow> user \<Rightarrow> world \<Rightarrow> user \<times> world" where
  "apply_mutation (UpdateName n) u w = update_name n u w"
| "apply_mutation Deactivate u w = deactivate u w"
| "apply_mutation Activate u w = activate u w"

fun apply_mutations :: "mutation list \<Rightarrow> user \<Rightarrow> world \<Rightarrow> user \<times> world" where
  "apply_mutations [] u w = (u, w)"
| "apply_mutations (m # ms) u w =
     (case apply_mutation m u w of (u', w') \<Rightarrow> apply_mutations ms u' w')"

text \<open>
  \<open>str(uuid)\<close>: the 32 hexadecimal digits of the number, most significant first, in
  groups of 8, 4, 4, 4 and 12 digits joined by hyphens.
\<close>

definition uuid_hex :: "uuid \<Rightarrow> string" where
  "uuid_hex u =
     map (\<lambda>k. ''0123456789abcdef'' ! unat (drop_bit (4 * (31 - k)) u AND 15)) [0..<32]"

definition uuid_str :: "uuid \<Rightarrow> string" where
  "uuid_str u =
     (let h = uuid_hex u
      in take 8 h @ ''-'' @ take 4 (drop 8 h) @ ''-'' @ take 4 (drop 12 h) @ ''-''
         @ take 4 (drop 16 h) @ ''-'' @ drop 20 h)"

section \<open>Exceptions and the repository port\<close>

text \<open>
  The domain exceptions of domain/src/exceptions/domain_exceptions.py, each with its
  message. An exception raised by an adapter of the port is not a domain exception; the use
  cases do not catch it, so it leaves them unchanged: \<open>StorageFailure\<close>.
\<close>

datatype storage_error = StorageError string

datatype error =
    InvalidUserDataException string
  | UserAlreadyExistsException string
  | UserNotFoundException string
  | StorageFailure storage_error

text \<open>
  The abstract class \<open>UserRepository\<close>: seven operations over a storage state \<open>'s\<close> that
  the port does not describe. A lookup returns a value or raises and leaves the state as it
  is; a write returns the state after it, also when it raises.
\<close>

record 's user_repository =
  save :: "user \<Rightarrow> 's \<Rightarrow> (storage_error + user) \<times> 's"
  find_by_id :: "uuid \<Rightarrow> 's \<Rightarrow> storage_error + user option"
  find_by_email :: "string \<Rightarrow> 's \<Rightarrow> storage_error + user option"
  find_all :: "'s \<Rightarrow> storage_error + user list"
  find_active_users :: "'s \<Rightarrow> storage_error + user list"
  delete :: "uuid \<Rightarrow> 's \<Rightarrow> (storage_error + bool) \<times> 's"
  update :: "user \<Rightarrow> 's \<Rightarrow> (storage_error + user) \<times> 's"

text \<open>The calls a use case makes on the port, in the order it makes them.\<close>

datatype port_call =
    Save user
  | FindByID uuid
  | FindByEmail string
  | FindAll
  | FindActiveUsers
  | Delete uuid
  | Update user

fun is_read :: "port_call \<Rightarrow> bool" where
  "is_read (FindByID _) = True"
| "is_read (FindByEmail _) = True"
| "is_read FindAll = True"
| "is_read FindActiveUsers = True"
| "is_read _ = False"

text \<open>
  What one invocation of a use case leaves behind: the value it returns or the exception it
  raises, the calls it made on the port, and the state of the storage after it.
\<close>

record ('a, 's) outcome =
  result :: "error + 'a"
  calls :: "port_call list"
  storage :: 's

text \<open>How many lookups and how many writes a sequence of calls holds.\<close>

definition n_reads :: "port_call list \<Rightarrow> nat" where
  "n_reads cs = length (filter is_read cs)"

definition n_writes :: "port_call list \<Rightarrow> nat" where
  "n_writes cs = length (filter (\<lambda>c. \<not> is_read c) cs)"

section \<open>GetUser and ListUsers\<close>

text \<open>
  \<open>GetUserUseCase.execute\<close>. A \<open>User\<close> object is always truthy (the dataclass defines
  neither \<open>__bool__\<close> nor \<open>__len__\<close>), so \<open>not user\<close> holds exactly for \<open>None\<close>.
\<close>

definition get_user_execute :: "'s user_repository \<Rightarrow> uuid \<Rightarrow> 's \<Rightarrow> (user, 's) outcome" where
  "get_user_execute repo uid s =
     (case find_by_id repo uid s of
        Inl e \<Rightarrow> \<lparr>result = Inl (StorageFailure e), calls = [FindByID uid], storage = s\<rparr>
      | Inr None \<Rightarrow>
          \<lparr>result = Inl (UserNotFoundException
                            (''User with ID '' @ uuid_str uid @ '' not found'')),
           calls = [FindByID uid], storage = s\<rparr>
      | Inr (Some u) \<Rightarrow> \<lparr>result = Inr u, calls = [FindByID uid], storage = s\<rparr>)"

text \<open>\<open>GetAllUsersUseCase.execute\<close>.\<close>

definition get_all_users_execute :: "'s user_repository \<Rightarrow> 's \<Rightarrow> (user list, 's) outcome" where
  "get_all_users_execute repo s =
     (case find_all repo s of
        Inl e \<Rightarrow> \<lparr>result = Inl (StorageFailure e), calls = [FindAll], storage = s\<rparr>
      | Inr us \<Rightarrow> \<lparr>result = Inr us, calls = [FindAll], storage = s\<rparr>)"

section \<open>Python strings\<close>

text \<open>
  A string is a list of characters with code points below 256. \<open>str.isspace\<close>,
  \<open>str.strip\<close> and \<open>str.lower\<close> are given for these characters.
\<close>

definition py_isspace :: "char \<Rightarrow> bool" where
  "py_isspace c =
     (let n = (of_char c :: nat)
      in (9 \<le> n \<and> n \<le> 13) \<or> (28 \<le> n \<and> n \<le> 32) \<or> n = 133 \<or> n = 160)"

definition py_strip :: "string \<Rightarrow> string" where
  "py_strip s = rev (dropWhile py_isspace (rev (dropWhile py_isspace s)))"

definition lower_char :: "char \<Rightarrow> char" where
  "lower_char c =
     (let n = (of_char c :: nat)
      in if (65 \<le> n \<and> n \<le> 90) \<or> (192 \<le> n \<and> n \<le> 222 \<and> n \<noteq> 215)
         then char_of (n + 32) else c)"

definition py_lower :: "string \<Rightarrow> string" where
  "py_lower s = map lower_char s"

section \<open>Regular expressions as Python's re module matches them\<close>

text \<open>
  The fragment of the pattern language that the email pattern uses. A character set
  \<open>[...]\<close> is a list of ranges \<open>lo-hi\<close>, a single character \<open>c\<close> being the range \<open>c-c\<close>.
  \<open>Nothing\<close> and \<open>Alt\<close> are not written in the pattern; they arise in derivatives.
\<close>

datatype regex =
    Nothing
  | Epsilon
  | Class "(char \<times> char) list"
  | Cat regex regex
  | Alt regex regex
  | Star regex

text \<open>\<open>X+\<close> is \<open>XX*\<close>, and \<open>X{n,}\<close> is n copies of \<open>X\<close> followed by \<open>X*\<close>.\<close>

definition One_or_more :: "regex \<Rightarrow> regex" where
  "One_or_more r = Cat r (Star r)"

fun At_least :: "nat \<Rightarrow> regex \<Rightarrow> regex" where
  "At_least 0 r = Star r"
| "At_least (Suc n) r = Cat r (At_least n r)"

fun in_class :: "(char \<times> char) list \<Rightarrow> char \<Rightarrow> bool" where
  "in_class [] c = False"
| "in_class ((lo, hi) # rs) c =
     (((of_char lo :: nat) \<le> of_char c \<and> (of_char c :: nat) \<le> of_char hi) \<or> in_class rs c)"

text \<open>
  Whether a pattern matches a whole string does not depend on the order in which a
  backtracking matcher tries the alternatives, so the matcher here is the one by
  derivatives: \<open>deriv c r\<close> matches what \<open>r\<close> matches after a leading \<open>c\<close>.
\<close>

fun nullable :: "regex \<Rightarrow> bool" where
  "nullable Nothing = False"
| "nullable Epsilon = True"
| "nullable (Class rs) = False"
| "nullable (Cat r s) = (nullable r \<and> nullable s)"
| "nullable (Alt r s) = (nullable r \<or> nullable s)"
| "nullable (Star r) = True"

fun deriv :: "char \<Rightarrow> regex \<Rightarrow> regex" where
  "deriv c Nothing = Nothing"
| "deriv c Epsilon = Nothing"
| "deriv c (Class rs) = (if in_class rs c then Epsilon else Nothing)"
| "deriv c (Cat r s) =
     (if nullable r then Alt (Cat (deriv c r) s) (deriv c s) else Cat (deriv c r) s)"
| "deriv c (Alt r s) = Alt (deriv c r) (deriv c s)"
| "deriv c (Star r) = Cat (deriv c r) (Star r)"

fun matches :: "regex \<Rightarrow> string \<Rightarrow> bool" where
  "matches r [] = nullable r"
| "matches r (c # cs) = matches (deriv c r) cs"

text \<open>
  \<open>re.match('^' + r + '$', s) is not None\<close>. \<open>re.match\<close> matches at the start of the
  string, where \<open>^\<close> holds. Without the MULTILINE flag \<open>$\<close> holds at the end of the string
  and also just before a line feed that is the last character of the string. So the
  pattern matches when \<open>r\<close> matches all of \<open>s\<close>, or all of \<open>s\<close> but a final line feed.
\<close>

definition re_match_anchored :: "regex \<Rightarrow> string \<Rightarrow> bool" where
  "re_match_anchored r s =
     (matches r s \<or> (s \<noteq> [] \<and> last s = CHR 0x0A \<and> matches r (butlast s)))"

text \<open>The languages of patterns, to reason about the matcher.\<close>

definition conc :: "string set \<Rightarrow> string set \<Rightarrow> string set" where
  "conc A B = {a @ b | a b. a \<in> A \<and> b \<in> B}"

inductive_set star :: "string set \<Rightarrow> string set" for A :: "string set" where
  star_nil: "[] \<in> star A"
| star_app: "a \<in> A \<Longrightarrow> b \<in> star A \<Longrightarrow> a @ b \<in> star A"

fun lang :: "regex \<Rightarrow> string set" where
  "lang Nothing = {}"
| "lang Epsilon = {[]}"
| "lang (Class rs) = {[c] | c. in_class rs c}"
| "lang (Cat r s) = conc (lang r) (lang s)"
| "lang (Alt r s) = lang r \<union> lang s"
| "lang (Star r) = star (lang r)"

section \<open>CreateUser (domain/src/use_cases/create_user_use_case.py)\<close>

text \<open>
  The pattern of \<open>_is_valid_email\<close>:
  \<^verbatim>\<open>^[a-zA-Z0-9._%+-]+@[a-zA-Z0-9.-]+\.[a-zA-Z]{2,}$\<close>
\<close>

definition local_set :: "(char \<times> char) list" where
  "local_set = [(CHR ''a'', CHR ''z''), (CHR ''A'', CHR ''Z''), (CHR ''0'', CHR ''9''),
     (CHR ''.'', CHR ''.''), (CHR ''_'', CHR ''_''), (CHR ''%'', CHR ''%''),
     (CHR ''+'', CHR ''+''), (CHR ''-'', CHR ''-'')]"

definition domain_set :: "(char \<times> char) list" where
  "domain_set = [(CHR ''a'', CHR ''z''), (CHR ''A'', CHR ''Z''), (CHR ''0'', CHR ''9''),
     (CHR ''.'', CHR ''.''), (CHR ''-'', CHR ''-'')]"

definition letter_set :: "(char \<times> char) list" where
  "letter_set = [(CHR ''a'', CHR ''z''), (CHR ''A'', CHR ''Z'')]"

definition email_pattern :: regex where
  "email_pattern =
     Cat (One_or_more (Class local_set))
       (Cat (Class [(CHR ''@'', CHR ''@'')])
         (Cat (One_or_more (Class domain_set))
           (Cat (Class [(CHR ''.'', CHR ''.'')])
             (At_least 2 (Class letter_set)))))"

definition is_valid_email :: "string \<Rightarrow> bool" where
  "is_valid_email em = re_match_anchored email_pattern em"

text \<open>
  \<open>CreateUserUseCase.execute\<close>. \<open>not email\<close> and \<open>not name\<close> hold for the empty string
  only. A \<open>User\<close> is truthy, so \<open>if existing_user\<close> holds for every user found. The entity
  is built with an explicit \<open>uuid4()\<close> and without timestamps.
\<close>

definition create_user_execute ::
  "'s user_repository \<Rightarrow> string \<Rightarrow> string \<Rightarrow> 's \<Rightarrow> world \<Rightarrow> (user, 's) outcome \<times> world" where
  "create_user_execute repo em nm s w =
     (if em = [] \<or> nm = [] then
        (\<lparr>result = Inl (InvalidUserDataException ''Email and name are required''),
          calls = [], storage = s\<rparr>, w)
      else if \<not> is_valid_email em then
        (\<lparr>result = Inl (InvalidUserDataException ''Invalid email''),
          calls = [], storage = s\<rparr>, w)
      else
        (case find_by_email repo em s of
           Inl e \<Rightarrow>
             (\<lparr>result = Inl (StorageFailure e), calls = [FindByEmail em], storage = s\<rparr>, w)
         | Inr (Some existing_user) \<Rightarrow>
             (\<lparr>result = Inl (UserAlreadyExistsException ''Email is already registered''),
               calls = [FindByEmail em], storage = s\<rparr>, w)
         | Inr None \<Rightarrow>
             (let (i, w1) = uuid4 w;
                  (u, w2) = User_init (Some i) em nm True None None w1;
                  (saved, s') = save repo u s
              in (\<lparr>result = (case saved of Inl e \<Rightarrow> Inl (StorageFailure e)
                                | Inr saved_user \<Rightarrow> Inr saved_user),
                   calls = [FindByEmail em, Save u], storage = s'\<rparr>, w2))))"

text \<open>The entity that \<open>execute\<close> builds for an email and a name in a given world.\<close>

definition new_user :: "string \<Rightarrow> string \<Rightarrow> world \<Rightarrow> user" where
  "new_user em nm w =
     fst (User_init (Some (fst (uuid4 w))) em nm True None None (snd (uuid4 w)))"

section \<open>The user factory (factories/user_factory.py)\<close>

text \<open>
  \<open>UserFactory.create_user\<close>, the other place of the repository that builds a new user.
  It raises \<open>ValueError\<close>, which is not a domain exception.
\<close>

datatype value_error = ValueError string

definition factory_create_user ::
  "string \<Rightarrow> string \<Rightarrow> bool \<Rightarrow> world \<Rightarrow> (value_error + user) \<times> world" where
  "factory_create_user em nm active w =
     (if em = [] \<or> py_strip em = [] then (Inl (ValueError ''Email is required''), w)
      else if nm = [] \<or> py_strip nm = [] then (Inl (ValueError ''Name is required''), w)
      else
        (let (i, w1) = uuid4 w;
             (c, w2) = datetime_now w1;
             (t, w3) = datetime_now w2;
             (u, w4) = User_init (Some i) (py_lower (py_strip em)) (py_strip nm) active
                         (Some c) (Some t) w3
         in (Inr u, w4)))"

section \<open>The words of the specification\<close>

text \<open>
  The shape \<open>local@domain.tld\<close> as the specification describes it: a local part of one or
  more ASCII letters, digits or \<open>. _ % + -\<close>; a domain part of one or more ASCII letters,
  digits, dots or hyphens; a dot; a top-level domain of two or more ASCII letters. The
  positions of the \<open>@\<close> and of the dot before the top-level domain are \<open>i\<close> and \<open>j\<close>.
\<close>

definition ascii_letter :: "char \<Rightarrow> bool" where
  "ascii_letter c =
     (let n = (of_char c :: nat) in (97 \<le> n \<and> n \<le> 122) \<or> (65 \<le> n \<and> n \<le> 90))"

definition ascii_digit :: "char \<Rightarrow> bool" where
  "ascii_digit c = (let n = (of_char c :: nat) in 48 \<le> n \<and> n \<le> 57)"

definition local_char :: "char \<Rightarrow> bool" where
  "local_char c = (ascii_letter c \<or> ascii_digit c \<or> c \<in> set ''._%+-'')"

definition domain_char :: "char \<Rightarrow> bool" where
  "domain_char c = (ascii_letter c \<or> ascii_digit c \<or> c \<in> set ''.-'')"

definition spec_email_shape :: "string \<Rightarrow> bool" where
  "spec_email_shape s =
     (\<exists>i < length s. \<exists>j < length s. i < j \<and> s ! i = CHR ''@'' \<and> s ! j = CHR ''.''
        \<and> take i s \<noteq> [] \<and> list_all local_char (take i s)
        \<and> Suc i < j \<and> list_all domain_char (take (j - Suc i) (drop (Suc i) s))
        \<and> 2 \<le> length (drop (Suc j) s) \<and> list_all ascii_letter (drop (Suc j) s))"

text \<open>
  A normalized email is trimmed and lower-cased; a name is blank when every character of it
  is whitespace (the empty name included).
\<close>

definition spec_normalized :: "string \<Rightarrow> bool" where
  "spec_normalized e = (py_lower (py_strip e) = e)"

definition spec_whitespace_only :: "string \<Rightarrow> bool" where
  "spec_whitespace_only s = list_all py_isspace s"

definition is_invalid_input :: "error + 'a \<Rightarrow> bool" where
  "is_invalid_input r = (case r of Inl (InvalidUserDataException m) \<Rightarrow> True | _ \<Rightarrow> False)"

definition is_already_exists :: "error + 'a \<Rightarrow> bool" where
  "is_already_exists r = (case r of Inl (UserAlreadyExistsException m) \<Rightarrow> True | _ \<Rightarrow> False)"

definition is_not_found :: "error + 'a \<Rightarrow> bool" where
  "is_not_found r = (case r of Inl (UserNotFoundException m) \<Rightarrow> True | _ \<Rightarrow> False)"

section \<open>Adapters to run the use cases on\<close>

text \<open>
  An adapter of the port over a table held in memory, one item per user: \<open>save\<close> puts the
  item in place of the one with the same id, as \<open>put_item\<close> does; the lookups, the scans,
  \<open>delete\<close> and \<open>update\<close> follow the contract of the port. It never raises.
\<close>

definition memory_repository :: "user list user_repository" where
  "memory_repository =
     \<lparr>save = (\<lambda>u tbl. (Inr u, u # filter (\<lambda>v. user_id v \<noteq> user_id u) tbl)),
      find_by_id = (\<lambda>i tbl. Inr (find (\<lambda>v. user_id v = i) tbl)),
      find_by_email = (\<lambda>e tbl. Inr (find (\<lambda>v. email v = e) tbl)),
      find_all = (\<lambda>tbl. Inr tbl),
      find_active_users = (\<lambda>tbl. Inr (filter is_active tbl)),
      delete = (\<lambda>i tbl. (Inr (list_ex (\<lambda>v. user_id v = i) tbl),
                          filter (\<lambda>v. user_id v \<noteq> i) tbl)),
      update = (\<lambda>u tbl. (Inr u,
                  map (\<lambda>v. if user_id v = user_id u
                            then v\<lparr>name := name u, is_active := is_active u,
                                   updated_at := updated_at u\<rparr>
                            else v) tbl))\<rparr>"

text \<open>
  The same adapter over a table that refuses writes: \<open>save\<close>, \<open>delete\<close> and \<open>update\<close>
  raise, as the DynamoDB adapter does when \<open>put_item\<close> fails, and leave the table as it is.
\<close>

definition read_only_repository :: "user list user_repository" where
  "read_only_repository =
     memory_repository
       \<lparr>save := (\<lambda>u tbl. (Inl (StorageError ''Error saving user to DynamoDB''), tbl)),
        delete := (\<lambda>i tbl. (Inl (StorageError ''Error deleting user from DynamoDB''), tbl)),
        update := (\<lambda>u tbl. (Inl (StorageError ''Error updating user in DynamoDB''), tbl))\<rparr>"

text \<open>A clock that advances by one microsecond at every reading, and a generator of ids.\<close>

definition ticking_world :: world where
  "ticking_world =
     \<lparr>clock = (\<lambda>n. 1000 + int n), clock_reads = 0,
      uuid_source = (\<lambda>n. word_of_nat (Suc n)), uuid_draws = 0\<rparr>"

definition ann :: user where
  "ann = \<lparr>user_id = 77, email = ''a@b.com'', name = ''Ann'', is_active = True,
          created_at = 10, updated_at = 10\<rparr>"

section \<open>The matcher and the languages of patterns\<close>

lemma conc_iff: "s \<in> conc A B \<longleftrightarrow> (\<exists>a b. s = a @ b \<and> a \<in> A \<and> b \<in> B)"
  by (auto simp: conc_def)

lemma Cons_in_conc:
  "c # s \<in> conc A B \<longleftrightarrow>
     ([] \<in> A \<and> c # s \<in> B) \<or> (\<exists>a b. s = a @ b \<and> c # a \<in> A \<and> b \<in> B)"
proof
  assume "c # s \<in> conc A B"
  then obtain a b where ab: "c # s = a @ b" "a \<in> A" "b \<in> B"
    by (auto simp: conc_iff)
  show "([] \<in> A \<and> c # s \<in> B) \<or> (\<exists>a b. s = a @ b \<and> c # a \<in> A \<and> b \<in> B)"
  proof (cases a)
    case Nil
    with ab show ?thesis by simp
  next
    case (Cons x xs)
    with ab have "s = xs @ b" "c # xs \<in> A" by auto
    with ab show ?thesis by blast
  qed
next
  assume "([] \<in> A \<and> c # s \<in> B) \<or> (\<exists>a b. s = a @ b \<and> c # a \<in> A \<and> b \<in> B)"
  then show "c # s \<in> conc A B"
  proof
    assume "[] \<in> A \<and> c # s \<in> B"
    then have "[] @ (c # s) \<in> conc A B" unfolding conc_iff by blast
    then show ?thesis by simp
  next
    assume "\<exists>a b. s = a @ b \<and> c # a \<in> A \<and> b \<in> B"
    then obtain a b where "s = a @ b" "c # a \<in> A" "b \<in> B" by blast
    then have "(c # a) @ b \<in> conc A B" unfolding conc_iff by blast
    with \<open>s = a @ b\<close> show ?thesis by simp
  qed
qed

lemma star_Cons_split:
  "x \<in> star A \<Longrightarrow> x = c # s \<Longrightarrow> \<exists>a b. s = a @ b \<and> c # a \<in> A \<and> b \<in> star A"
proof (induction arbitrary: s rule: star.induct)
  case star_nil
  then show ?case by simp
next
  case (star_app a b)
  show ?case
  proof (cases a)
    case Nil
    with star_app show ?thesis by simp
  next
    case (Cons y ys)
    with star_app.prems have "s = ys @ b" "y = c" by auto
    with star_app.hyps Cons show ?thesis by blast
  qed
qed

lemma Cons_in_star:
  "c # s \<in> star A \<longleftrightarrow> (\<exists>a b. s = a @ b \<and> c # a \<in> A \<and> b \<in> star A)"
proof
  assume "c # s \<in> star A"
  then show "\<exists>a b. s = a @ b \<and> c # a \<in> A \<and> b \<in> star A"
    by (rule star_Cons_split) simp
next
  assume "\<exists>a b. s = a @ b \<and> c # a \<in> A \<and> b \<in> star A"
  then obtain a b where "s = a @ b" "c # a \<in> A" "b \<in> star A" by blast
  then have "(c # a) @ b \<in> star A" by (intro star_app)
  with \<open>s = a @ b\<close> show "c # s \<in> star A" by simp
qed

lemma nullable_lang: "nullable r \<longleftrightarrow> [] \<in> lang r"
proof (induction r)
  case (Cat r1 r2)
  then show ?case by (simp add: conc_iff)
next
  case (Star r)
  show ?case by (simp add: star_nil)
qed simp_all

lemma conc_deriv:
  assumes "\<And>s. s \<in> D \<longleftrightarrow> c # s \<in> A"
  shows "s \<in> conc D B \<longleftrightarrow> (\<exists>a b. s = a @ b \<and> c # a \<in> A \<and> b \<in> B)"
  unfolding conc_iff assms ..

lemma deriv_lang: "s \<in> lang (deriv c r) \<longleftrightarrow> c # s \<in> lang r"
proof (induction r arbitrary: s)
  case Nothing
  show ?case by simp
next
  case Epsilon
  show ?case by simp
next
  case (Class rs)
  show ?case by auto
next
  case (Cat r1 r2)
  have left: "s \<in> conc (lang (deriv c r1)) (lang r2) \<longleftrightarrow>
      (\<exists>a b. s = a @ b \<and> c # a \<in> lang r1 \<and> b \<in> lang r2)"
    by (rule conc_deriv) (rule Cat.IH(1))
  show ?case
  proof (cases "nullable r1")
    case True
    then have "[] \<in> lang r1" by (simp add: nullable_lang)
    with True show ?thesis
      by (simp add: Cons_in_conc left Cat.IH(2) disj_commute)
  next
    case False
    then have "[] \<notin> lang r1" by (simp add: nullable_lang)
    with False show ?thesis
      by (simp add: Cons_in_conc left)
  qed
next
  case (Alt r1 r2)
  then show ?case by simp
next
  case (Star r)
  have "s \<in> conc (lang (deriv c r)) (star (lang r)) \<longleftrightarrow>
      (\<exists>a b. s = a @ b \<and> c # a \<in> lang r \<and> b \<in> star (lang r))"
    by (rule conc_deriv) (rule Star.IH)
  then show ?case by (simp add: Cons_in_star)
qed

lemma matches_lang: "matches r s \<longleftrightarrow> s \<in> lang r"
  by (induction s arbitrary: r) (simp_all add: nullable_lang deriv_lang)

lemma star_singletons: "s \<in> star {[c] | c. P c} \<longleftrightarrow> list_all P s"
proof (induction s)
  case Nil
  show ?case by (simp add: star_nil)
next
  case (Cons x xs)
  have "x # xs \<in> star {[c] | c. P c} \<longleftrightarrow> P x \<and> xs \<in> star {[c] | c. P c}"
    unfolding Cons_in_star by simp
  with Cons show ?case by simp
qed

lemma conc_singletons: "x # xs \<in> conc {[c] | c. P c} B \<longleftrightarrow> P x \<and> xs \<in> B"
  unfolding Cons_in_conc by simp

lemma Nil_conc_singletons: "[] \<notin> conc {[c] | c. P c} B"
  unfolding conc_iff by simp

lemma lang_One_or_more_Class:
  "s \<in> lang (One_or_more (Class rs)) \<longleftrightarrow> s \<noteq> [] \<and> list_all (in_class rs) s"
  by (cases s) (simp_all add: One_or_more_def conc_singletons Nil_conc_singletons star_singletons)

lemma lang_At_least_Class:
  "s \<in> lang (At_least n (Class rs)) \<longleftrightarrow> n \<le> length s \<and> list_all (in_class rs) s"
proof (induction n arbitrary: s)
  case 0
  show ?case by (simp add: star_singletons)
next
  case (Suc n)
  show ?case
    by (cases s) (auto simp add: conc_singletons Nil_conc_singletons Suc)
qed

lemma in_range_single:
  "((of_char x :: nat) \<le> of_char c \<and> (of_char c :: nat) \<le> of_char x) = (c = x)"
  by (auto simp: of_char_eq_iff)

lemma in_class_letter: "in_class letter_set c = ascii_letter c"
  by (simp add: letter_set_def ascii_letter_def Let_def)

lemma in_class_local: "in_class local_set c = local_char c"
proof -
  have "in_class local_set c =
      (((of_char CHR ''a'' :: nat) \<le> of_char c \<and> (of_char c :: nat) \<le> of_char CHR ''z'') \<or>
       ((of_char CHR ''A'' :: nat) \<le> of_char c \<and> (of_char c :: nat) \<le> of_char CHR ''Z'') \<or>
       ((of_char CHR ''0'' :: nat) \<le> of_char c \<and> (of_char c :: nat) \<le> of_char CHR ''9'') \<or>
       c = CHR ''.'' \<or> c = CHR ''_'' \<or> c = CHR ''%'' \<or> c = CHR ''+'' \<or> c = CHR ''-'')"
    unfolding local_set_def by (simp only: in_class.simps in_range_single simp_thms)
  also have "\<dots> = local_char c"
    by (simp add: local_char_def ascii_letter_def ascii_digit_def Let_def)
  finally show ?thesis .
qed

lemma in_class_domain: "in_class domain_set c = domain_char c"
proof -
  have "in_class domain_set c =
      (((of_char CHR ''a'' :: nat) \<le> of_char c \<and> (of_char c :: nat) \<le> of_char CHR ''z'') \<or>
       ((of_char CHR ''A'' :: nat) \<le> of_char c \<and> (of_char c :: nat) \<le> of_char CHR ''Z'') \<or>
       ((of_char CHR ''0'' :: nat) \<le> of_char c \<and> (of_char c :: nat) \<le> of_char CHR ''9'') \<or>
       c = CHR ''.'' \<or> c = CHR ''-'')"
    unfolding domain_set_def by (simp only: in_class.simps in_range_single simp_thms)
  also have "\<dots> = domain_char c"
    by (simp add: domain_char_def ascii_letter_def ascii_digit_def Let_def)
  finally show ?thesis .
qed

lemma in_class_lit: "in_class [(x, x)] c = (c = x)"
  by (simp only: in_class.simps in_range_single simp_thms)

lemma spec_email_shape_split:
  "spec_email_shape s \<longleftrightarrow>
     (\<exists>l d t. s = l @ CHR ''@'' # d @ CHR ''.'' # t
        \<and> l \<noteq> [] \<and> list_all local_char l
        \<and> d \<noteq> [] \<and> list_all domain_char d
        \<and> 2 \<le> length t \<and> list_all ascii_letter t)"
proof
  assume "spec_email_shape s"
  then obtain i j where ij: "i < length s" "j < length s" "i < j"
      "s ! i = CHR ''@''" "s ! j = CHR ''.''"
      "take i s \<noteq> []" "list_all local_char (take i s)"
      "Suc i < j" "list_all domain_char (take (j - Suc i) (drop (Suc i) s))"
      "2 \<le> length (drop (Suc j) s)" "list_all ascii_letter (drop (Suc j) s)"
    unfolding spec_email_shape_def by blast
  let ?l = "take i s" and ?r = "drop (Suc i) s"
  let ?d = "take (j - Suc i) ?r" and ?t = "drop (Suc j) s"
  have s1: "s = ?l @ CHR ''@'' # ?r"
    using ij(1,4) id_take_nth_drop by metis
  have jr: "j - Suc i < length ?r" using ij by simp
  have rj: "?r ! (j - Suc i) = CHR ''.''" using ij by simp
  have "drop (Suc (j - Suc i)) ?r = ?t" using ij by simp
  with jr rj have s2: "?r = ?d @ CHR ''.'' # ?t"
    using id_take_nth_drop [OF jr] by simp
  have dne: "?d \<noteq> []" using ij by simp
  from s1 s2 have "s = ?l @ CHR ''@'' # ?d @ CHR ''.'' # ?t" by simp
  with ij dne show "\<exists>l d t. s = l @ CHR ''@'' # d @ CHR ''.'' # t
        \<and> l \<noteq> [] \<and> list_all local_char l
        \<and> d \<noteq> [] \<and> list_all domain_char d
        \<and> 2 \<le> length t \<and> list_all ascii_letter t" by blast
next
  assume "\<exists>l d t. s = l @ CHR ''@'' # d @ CHR ''.'' # t
        \<and> l \<noteq> [] \<and> list_all local_char l
        \<and> d \<noteq> [] \<and> list_all domain_char d
        \<and> 2 \<le> length t \<and> list_all ascii_letter t"
  then obtain l d t where s: "s = l @ CHR ''@'' # d @ CHR ''.'' # t"
    and ok: "l \<noteq> []" "list_all local_char l" "d \<noteq> []" "list_all domain_char d"
      "2 \<le> length t" "list_all ascii_letter t" by blast
  let ?i = "length l" and ?j = "Suc (length l + length d)"
  have a: "?i < length s" "?j < length s" "?i < ?j" "Suc ?i < ?j"
    using s ok by auto
  have b: "s ! ?i = CHR ''@''" using s by simp
  have c: "s ! ?j = CHR ''.''" using s by (simp add: nth_append nth_Cons')
  have d: "take ?i s = l" using s by simp
  have e: "drop (Suc ?i) s = d @ CHR ''.'' # t" using s by simp
  have f: "take (?j - Suc ?i) (drop (Suc ?i) s) = d" unfolding e by simp
  have g: "drop (Suc ?j) s = t" using s by simp
  show "spec_email_shape s"
    unfolding spec_email_shape_def
    apply (rule exI [of _ ?i], rule conjI [OF a(1)])
    apply (rule exI [of _ ?j], rule conjI [OF a(2)])
    using a b c ok unfolding d f g by simp
qed

lemma lang_lit: "s \<in> lang (Class [(x, x)]) \<longleftrightarrow> s = [x]"
  unfolding lang.simps in_class_lit by blast

lemma conc_lit: "s \<in> conc (lang (Class [(x, x)])) B \<longleftrightarrow> (\<exists>b. s = x # b \<and> b \<in> B)"
  unfolding conc_iff lang_lit by auto

lemma email_pattern_lang:
  "s \<in> lang email_pattern \<longleftrightarrow>
     (\<exists>l d t. s = l @ CHR ''@'' # d @ CHR ''.'' # t
        \<and> l \<noteq> [] \<and> list_all local_char l
        \<and> d \<noteq> [] \<and> list_all domain_char d
        \<and> 2 \<le> length t \<and> list_all ascii_letter t)"
proof -
  have tail: "\<And>u. u \<in> conc (lang (Class [(CHR ''.'', CHR ''.'')])) (lang (At_least 2 (Class letter_set)))
      \<longleftrightarrow> (\<exists>t. u = CHR ''.'' # t \<and> 2 \<le> length t \<and> list_all ascii_letter t)"
    unfolding conc_lit lang_At_least_Class in_class_letter ..
  have dom: "\<And>u. u \<in> conc (lang (One_or_more (Class domain_set)))
        (conc (lang (Class [(CHR ''.'', CHR ''.'')])) (lang (At_least 2 (Class letter_set))))
      \<longleftrightarrow> (\<exists>d t. u = d @ CHR ''.'' # t \<and> d \<noteq> [] \<and> list_all domain_char d
             \<and> 2 \<le> length t \<and> list_all ascii_letter t)"
    unfolding conc_iff [of _ "lang (One_or_more (Class domain_set))"] tail
      lang_One_or_more_Class in_class_domain by blast
  have at: "\<And>u. u \<in> conc (lang (Class [(CHR ''@'', CHR ''@'')]))
        (conc (lang (One_or_more (Class domain_set)))
          (conc (lang (Class [(CHR ''.'', CHR ''.'')])) (lang (At_least 2 (Class letter_set)))))
      \<longleftrightarrow> (\<exists>d t. u = CHR ''@'' # d @ CHR ''.'' # t \<and> d \<noteq> [] \<and> list_all domain_char d
             \<and> 2 \<le> length t \<and> list_all ascii_letter t)"
    unfolding conc_lit dom by blast
  have "s \<in> lang email_pattern \<longleftrightarrow>
      s \<in> conc (lang (One_or_more (Class local_set)))
        (conc (lang (Class [(CHR ''@'', CHR ''@'')]))
          (conc (lang (One_or_more (Class domain_set)))
            (conc (lang (Class [(CHR ''.'', CHR ''.'')])) (lang (At_least 2 (Class letter_set))))))"
    unfolding email_pattern_def lang.simps(4) ..
  also have "\<dots> \<longleftrightarrow> (\<exists>l d t. s = l @ CHR ''@'' # d @ CHR ''.'' # t
        \<and> l \<noteq> [] \<and> list_all local_char l
        \<and> d \<noteq> [] \<and> list_all domain_char d
        \<and> 2 \<le> length t \<and> list_all ascii_letter t)"
    unfolding conc_iff [of _ "lang (One_or_more (Class local_set))"] at
      lang_One_or_more_Class in_class_local by blast
  finally show ?thesis .
qed

lemma is_valid_email_iff:
  "is_valid_email em \<longleftrightarrow>
     spec_email_shape em \<or> (em \<noteq> [] \<and> last em = CHR 0x0A \<and> spec_email_shape (butlast em))"
  unfolding is_valid_email_def re_match_anchored_def matches_lang email_pattern_lang
    spec_email_shape_split [symmetric] ..



lemma spec_email_shape_has_dot: "spec_email_shape s \<Longrightarrow> CHR ''.'' \<in> set s"
  unfolding spec_email_shape_split by auto

lemma spec_email_shape_not_Nil: "\<not> spec_email_shape []"
  unfolding spec_email_shape_def by simp


lemma is_valid_email_has_dot: "is_valid_email em \<Longrightarrow> CHR ''.'' \<in> set em"
  unfolding is_valid_email_iff
  by (auto dest: spec_email_shape_has_dot in_set_butlastD)

lemma is_valid_email_not_Nil: "\<not> is_valid_email []"
  unfolding is_valid_email_iff by (simp add: spec_email_shape_not_Nil)

lemma spec_email_shape_a_b_com: "spec_email_shape ''a@b.com''"
  unfolding spec_email_shape_def
  apply (rule exI [of _ 1], simp)
  apply (rule exI [of _ 3])
  apply (simp add: local_char_def domain_char_def ascii_letter_def ascii_digit_def)
  done

lemma is_valid_email_a_b_com: "is_valid_email ''a@b.com''"
  using spec_email_shape_a_b_com by (simp add: is_valid_email_iff)

section \<open>The branches of CreateUser\<close>

lemma new_user_fields:
  "new_user em nm w =
     \<lparr>user_id = uuid_source w (uuid_draws w), email = em, name = nm, is_active = True,
      created_at = clock w (clock_reads w), updated_at = clock w (Suc (clock_reads w))\<rparr>"
  by (simp add: new_user_def User_init_def uuid4_def datetime_now_def)

lemma create_user_empty:
  "em = [] \<or> nm = [] \<Longrightarrow>
   create_user_execute repo em nm s w =
     (\<lparr>result = Inl (InvalidUserDataException ''Email and name are required''),
       calls = [], storage = s\<rparr>, w)"
  by (simp add: create_user_execute_def)

lemma create_user_bad_email:
  "em \<noteq> [] \<Longrightarrow> nm \<noteq> [] \<Longrightarrow> \<not> is_valid_email em \<Longrightarrow>
   create_user_execute repo em nm s w =
     (\<lparr>result = Inl (InvalidUserDataException ''Invalid email''),
       calls = [], storage = s\<rparr>, w)"
  by (simp add: create_user_execute_def)

lemma create_user_lookup_fails:
  "nm \<noteq> [] \<Longrightarrow> is_valid_email em \<Longrightarrow> find_by_email repo em s = Inl e \<Longrightarrow>
   create_user_execute repo em nm s w =
     (\<lparr>result = Inl (StorageFailure e), calls = [FindByEmail em], storage = s\<rparr>, w)"
  by (auto simp add: create_user_execute_def is_valid_email_not_Nil)

lemma create_user_exists:
  "nm \<noteq> [] \<Longrightarrow> is_valid_email em \<Longrightarrow> find_by_email repo em s = Inr (Some x) \<Longrightarrow>
   create_user_execute repo em nm s w =
     (\<lparr>result = Inl (UserAlreadyExistsException ''Email is already registered''),
       calls = [FindByEmail em], storage = s\<rparr>, w)"
  by (auto simp add: create_user_execute_def is_valid_email_not_Nil)

lemma create_user_new:
  "nm \<noteq> [] \<Longrightarrow> is_valid_email em \<Longrightarrow> find_by_email repo em s = Inr None \<Longrightarrow>
   fst (create_user_execute repo em nm s w) =
     \<lparr>result = (case fst (save repo (new_user em nm w) s) of
                  Inl e \<Rightarrow> Inl (StorageFailure e) | Inr saved_user \<Rightarrow> Inr saved_user),
      calls = [FindByEmail em, Save (new_user em nm w)],
      storage = snd (save repo (new_user em nm w) s)\<rparr>"
  by (auto simp add: create_user_execute_def is_valid_email_not_Nil new_user_def
        Let_def split: prod.splits)

section \<open>The adapters and the inputs of the examples\<close>

lemma memory_find_by_email_Nil: "find_by_email memory_repository e [] = Inr None"
  by (simp add: memory_repository_def)

lemma memory_save:
  "save memory_repository u tbl = (Inr u, u # filter (\<lambda>v. user_id v \<noteq> user_id u) tbl)"
  by (simp add: memory_repository_def)

lemma memory_find_ann: "find_by_email memory_repository ''a@b.com'' [ann] = Inr (Some ann)"
  by (simp add: memory_repository_def ann_def)

lemma read_only_find_by_email_Nil: "find_by_email read_only_repository e [] = Inr None"
  by (simp add: read_only_repository_def memory_repository_def)

lemma read_only_save:
  "save read_only_repository u tbl = (Inl (StorageError ''Error saving user to DynamoDB''), tbl)"
  by (simp add: read_only_repository_def)

lemma spec_email_shape_valid: "spec_email_shape em \<Longrightarrow> is_valid_email em"
  by (simp add: is_valid_email_iff)

lemma is_valid_email_mixed_case: "is_valid_email ''Ann@Example.COM''"
  by code_simp

lemma not_normalized_mixed_case: "\<not> spec_normalized ''Ann@Example.COM''"
  by code_simp

lemma lower_mixed_case: "py_lower ''Ann@Example.COM'' = ''ann@example.com''"
  by code_simp

lemma strip_mixed_case: "py_strip ''Ann@Example.COM'' = ''Ann@Example.COM''"
  by code_simp

lemma strip_Ann: "py_strip ''Ann'' = ''Ann''"
  by code_simp

lemma strip_blank: "py_strip '' '' = []"
  by code_simp

lemma strip_a_b_com: "py_strip ''a@b.com'' = ''a@b.com''"
  by code_simp

lemma whitespace_only_blank: "spec_whitespace_only '' ''"
  by code_simp

section \<open>The entity: timestamps and identifier\<close>

lemma uuid_str_length: "length (uuid_str u) = 36"
  by (simp add: uuid_str_def uuid_hex_def Let_def)

lemma apply_mutation_effect:
  "apply_mutation m u w = (u', w') \<Longrightarrow>
     created_at u' = created_at u \<and> updated_at u' = clock w (clock_reads w)
     \<and> clock w' = clock w \<and> clock_reads w' = Suc (clock_reads w)"
  by (cases m) (auto simp: update_name_def deactivate_def activate_def datetime_now_def)

lemma apply_mutations_keep_order:
  "\<forall>k \<ge> clock_reads w. created_at u \<le> clock w k \<Longrightarrow> created_at u \<le> updated_at u \<Longrightarrow>
     created_at (fst (apply_mutations ms u w)) \<le> updated_at (fst (apply_mutations ms u w))"
proof (induction ms arbitrary: u w)
  case Nil
  then show ?case by simp
next
  case (Cons m ms)
  obtain u' w' where step: "apply_mutation m u w = (u', w')"
    by (cases "apply_mutation m u w")
  note eff = apply_mutation_effect [OF step]
  have "\<forall>k \<ge> clock_reads w'. created_at u' \<le> clock w' k"
    using Cons.prems(1) eff by simp
  moreover have "created_at u' \<le> updated_at u'"
    using Cons.prems(1) eff by simp
  ultimately have "created_at (fst (apply_mutations ms u' w'))
      \<le> updated_at (fst (apply_mutations ms u' w'))"
    by (rule Cons.IH)
  with step show ?case by simp
qed

lemma User_init_clock:
  "clock (snd (User_init id_arg em nm active created updated w)) = clock w
   \<and> clock_reads w \<le> clock_reads (snd (User_init id_arg em nm active created updated w))"
  by (cases id_arg; cases created; cases updated)
     (simp_all add: User_init_def uuid4_def datetime_now_def)

lemma User_init_created_at:
  "created_at (fst (User_init id_arg em nm active created updated w)) =
     (case created of None \<Rightarrow> clock w (clock_reads w) | Some c \<Rightarrow> c)"
  by (cases id_arg; cases created; cases updated)
     (simp_all add: User_init_def uuid4_def datetime_now_def)

lemma User_init_updated_at:
  "updated_at (fst (User_init id_arg em nm active created updated w)) =
     (case updated of
        None \<Rightarrow> (case created of None \<Rightarrow> clock w (Suc (clock_reads w))
                                 | Some c \<Rightarrow> clock w (clock_reads w))
      | Some t \<Rightarrow> t)"
  by (cases id_arg; cases created; cases updated)
     (simp_all add: User_init_def uuid4_def datetime_now_def)

section \<open>The user factory\<close>

lemma factory_create_user_fields:
  "py_strip em \<noteq> [] \<Longrightarrow> py_strip nm \<noteq> [] \<Longrightarrow>
   fst (factory_create_user em nm active w) =
     Inr \<lparr>user_id = uuid_source w (uuid_draws w), email = py_lower (py_strip em),
          name = py_strip nm, is_active = active,
          created_at = clock w (clock_reads w), updated_at = clock w (Suc (clock_reads w))\<rparr>"
  by (auto simp add: factory_create_user_def User_init_def uuid4_def datetime_now_def
        py_strip_def)

lemma factory_create_user_blank_name:
  "py_strip em \<noteq> [] \<Longrightarrow> py_strip nm = [] \<Longrightarrow>
   fst (factory_create_user em nm active w) = Inl (ValueError ''Name is required'')"
  by (auto simp add: factory_create_user_def py_strip_def)

section \<open>CreateUser: every run is one of five\<close>

lemma create_user_trace_cases:
  "create_user_execute repo em nm s w =
     (\<lparr>result = Inl (InvalidUserDataException ''Email and name are required''),
       calls = [], storage = s\<rparr>, w)
   \<or> create_user_execute repo em nm s w =
     (\<lparr>result = Inl (InvalidUserDataException ''Invalid email''), calls = [], storage = s\<rparr>, w)
   \<or> (\<exists>e. create_user_execute repo em nm s w =
     (\<lparr>result = Inl (StorageFailure e), calls = [FindByEmail em], storage = s\<rparr>, w))
   \<or> create_user_execute repo em nm s w =
     (\<lparr>result = Inl (UserAlreadyExistsException ''Email is already registered''),
       calls = [FindByEmail em], storage = s\<rparr>, w)
   \<or> fst (create_user_execute repo em nm s w) =
     \<lparr>result = (case fst (save repo (new_user em nm w) s) of
                  Inl e \<Rightarrow> Inl (StorageFailure e) | Inr saved_user \<Rightarrow> Inr saved_user),
      calls = [FindByEmail em, Save (new_user em nm w)],
      storage = snd (save repo (new_user em nm w) s)\<rparr>"
proof (cases "em = [] \<or> nm = []")
  case True
  then show ?thesis by (simp add: create_user_empty)
next
  case False
  then have ne: "em \<noteq> []" "nm \<noteq> []" by simp_all
  show ?thesis
  proof (cases "is_valid_email em")
    case False
    with ne show ?thesis by (simp add: create_user_bad_email)
  next
    case True
    show ?thesis
    proof (cases "find_by_email repo em s")
      case (Inl e)
      with ne True show ?thesis by (simp add: create_user_lookup_fails)
    next
      case (Inr found)
      show ?thesis
      proof (cases found)
        case None
        with Inr ne True show ?thesis by (simp add: create_user_new)
      next
        case (Some x)
        with Inr ne True show ?thesis by (simp add: create_user_exists)
      qed
    qed
  qed
qed


text \<open>
  The run that reaches \<open>save\<close>: the entity handed to it, and what comes back.
\<close>

lemma create_user_new_entity:
  assumes "nm \<noteq> []" and "spec_email_shape em" and "find_by_email repo em s = Inr None"
  shows "calls (fst (create_user_execute repo em nm s w))
           = [FindByEmail em, Save (new_user em nm w)]
       \<and> email (new_user em nm w) = em
       \<and> name (new_user em nm w) = nm
       \<and> is_active (new_user em nm w)
       \<and> created_at (new_user em nm w) = clock w (clock_reads w)
       \<and> user_id (new_user em nm w) = uuid_source w (uuid_draws w)
       \<and> uuid_str (user_id (new_user em nm w)) \<noteq> []
       \<and> uuid_draws (snd (create_user_execute repo em nm s w)) = Suc (uuid_draws w)
       \<and> (\<forall>v. fst (save repo (new_user em nm w) s) = Inr v \<longrightarrow>
              result (fst (create_user_execute repo em nm s w)) = Inr v)
       \<and> (\<forall>e. fst (save repo (new_user em nm w) s) = Inl e \<longrightarrow>
              result (fst (create_user_execute repo em nm s w)) = Inl (StorageFailure e))
       \<and> storage (fst (create_user_execute repo em nm s w))
           = snd (save repo (new_user em nm w) s)"
proof -
  have v: "is_valid_email em" using assms(2) by (rule spec_email_shape_valid)
  have ne: "em \<noteq> []" using v is_valid_email_not_Nil by blast
  note out = create_user_new [OF assms(1) v assms(3), of w]
  have len: "uuid_str (user_id (new_user em nm w)) \<noteq> []"
    using uuid_str_length [of "user_id (new_user em nm w)"] by auto
  have draws: "uuid_draws (snd (create_user_execute repo em nm s w)) = Suc (uuid_draws w)"
    using assms(1) ne v assms(3)
    by (simp add: create_user_execute_def User_init_def uuid4_def datetime_now_def
          split: prod.splits)
  show ?thesis
    using len draws by (simp add: out new_user_fields)
qed

section \<open>Claims about the entity\<close>

text \<open>
  C9. \<open>activate\<close> on an entity that is already active leaves \<open>is_active\<close> true and
  sets \<open>updated_at\<close> to the clock reading taken by the call; nothing else of the entity
  changes, and the call reads the clock once.
\<close>

theorem activate_keeps_active_refreshes_updated_at:
  "is_active u \<Longrightarrow>
     is_active (fst (activate u w))
     \<and> updated_at (fst (activate u w)) = clock w (clock_reads w)
     \<and> fst (activate u w) = u\<lparr>updated_at := clock w (clock_reads w)\<rparr>
     \<and> clock_reads (snd (activate u w)) = Suc (clock_reads w)"
  by (simp add: activate_def datetime_now_def)

theorem activate_keeps_active_refreshes_updated_at_witness:
  "is_active ann
   \<and> is_active (fst (activate ann ticking_world))
   \<and> updated_at ann = 10
   \<and> updated_at (fst (activate ann ticking_world)) = 1000
   \<and> fst (activate ann ticking_world) = ann\<lparr>updated_at := 1000\<rparr>"
proof -
  have h: "is_active ann" by (simp add: ann_def)
  show ?thesis
    using h activate_keeps_active_refreshes_updated_at [OF h, of ticking_world]
    by (simp add: ann_def ticking_world_def)
qed

text \<open>
  C8. The claim fails for an entity built with timestamps of the caller's choice: the
  constructor checks nothing, so \<open>updated_at\<close> may lie before \<open>created_at\<close>.
\<close>

theorem supplied_timestamps_counterexample:
  "updated_at (fst (User_init (Some 77) ''a@b.com'' ''Ann'' True (Some 10) (Some 5) ticking_world))
   < created_at (fst (User_init (Some 77) ''a@b.com'' ''Ann'' True (Some 10) (Some 5) ticking_world))"
  by (simp add: User_init_def)

text \<open>
  C8, as amended. When the clock never runs backwards, a supplied \<open>created_at\<close> is not
  later than the clock at construction, and a supplied \<open>updated_at\<close> is not earlier than
  the entity's \<open>created_at\<close>, then \<open>created_at \<le> updated_at\<close> holds at construction
  (the empty sequence) and after every sequence of \<open>update_name\<close>, \<open>activate\<close> and
  \<open>deactivate\<close>.
\<close>

theorem updated_at_not_before_created_at:
  assumes mono: "\<forall>i j. clock_reads w \<le> i \<and> i \<le> j \<longrightarrow> clock w i \<le> clock w j"
    and c_ok: "\<forall>c. created = Some c \<longrightarrow> c \<le> clock w (clock_reads w)"
    and u_ok: "\<forall>t. updated = Some t \<longrightarrow>
                 created_at (fst (User_init id_arg em nm active created updated w)) \<le> t"
  shows "created_at (fst (apply_mutations ms
             (fst (User_init id_arg em nm active created updated w))
             (snd (User_init id_arg em nm active created updated w))))
       \<le> updated_at (fst (apply_mutations ms
             (fst (User_init id_arg em nm active created updated w))
             (snd (User_init id_arg em nm active created updated w))))"
proof -
  let ?u = "fst (User_init id_arg em nm active created updated w)"
  let ?w = "snd (User_init id_arg em nm active created updated w)"
  have first: "created_at ?u \<le> clock w (clock_reads w)"
    using c_ok by (cases created) (simp_all add: User_init_created_at)
  have later: "\<forall>k \<ge> clock_reads ?w. created_at ?u \<le> clock ?w k"
  proof (intro allI impI)
    fix k assume "clock_reads ?w \<le> k"
    then have "clock_reads w \<le> k" using User_init_clock [of id_arg em nm active created updated w]
      by simp
    then have "clock w (clock_reads w) \<le> clock w k" using mono by simp
    with first show "created_at ?u \<le> clock ?w k" by (simp add: User_init_clock)
  qed
  have now: "created_at ?u \<le> updated_at ?u"
  proof (cases updated)
    case (Some t)
    with u_ok show ?thesis by (simp add: User_init_updated_at)
  next
    case None
    show ?thesis
    proof (cases created)
      case (Some c)
      with None c_ok show ?thesis by (simp add: User_init_updated_at User_init_created_at)
    next
      case n: None
      have "clock w (clock_reads w) \<le> clock w (Suc (clock_reads w))" using mono by simp
      with None n show ?thesis by (simp add: User_init_updated_at User_init_created_at)
    qed
  qed
  from later now show ?thesis by (rule apply_mutations_keep_order)
qed

theorem updated_at_not_before_created_at_witness:
  "created_at (fst (apply_mutations [Deactivate, Activate, UpdateName ''Bob'']
       (fst (User_init None ''a@b.com'' ''Ann'' True None None ticking_world))
       (snd (User_init None ''a@b.com'' ''Ann'' True None None ticking_world))))
   \<le> updated_at (fst (apply_mutations [Deactivate, Activate, UpdateName ''Bob'']
       (fst (User_init None ''a@b.com'' ''Ann'' True None None ticking_world))
       (snd (User_init None ''a@b.com'' ''Ann'' True None None ticking_world))))
   \<and> created_at (fst (apply_mutations [Activate]
       (fst (User_init (Some 77) ''a@b.com'' ''Ann'' False (Some 10) (Some 20) ticking_world))
       (snd (User_init (Some 77) ''a@b.com'' ''Ann'' False (Some 10) (Some 20) ticking_world))))
   \<le> updated_at (fst (apply_mutations [Activate]
       (fst (User_init (Some 77) ''a@b.com'' ''Ann'' False (Some 10) (Some 20) ticking_world))
       (snd (User_init (Some 77) ''a@b.com'' ''Ann'' False (Some 10) (Some 20) ticking_world))))"
proof -
  have mono: "\<forall>i j. clock_reads ticking_world \<le> i \<and> i \<le> j
      \<longrightarrow> clock ticking_world i \<le> clock ticking_world j"
    by (simp add: ticking_world_def)
  have c_ok: "\<forall>c. Some (10 :: datetime) = Some c
      \<longrightarrow> c \<le> clock ticking_world (clock_reads ticking_world)"
    by (simp add: ticking_world_def)
  have u_ok: "\<forall>t. Some (20 :: datetime) = Some t \<longrightarrow>
      created_at (fst (User_init (Some 77) ''a@b.com'' ''Ann'' False (Some 10) (Some 20)
        ticking_world)) \<le> t"
    by (simp add: User_init_created_at)
  have first: "created_at (fst (apply_mutations [Deactivate, Activate, UpdateName ''Bob'']
       (fst (User_init None ''a@b.com'' ''Ann'' True None None ticking_world))
       (snd (User_init None ''a@b.com'' ''Ann'' True None None ticking_world))))
   \<le> updated_at (fst (apply_mutations [Deactivate, Activate, UpdateName ''Bob'']
       (fst (User_init None ''a@b.com'' ''Ann'' True None None ticking_world))
       (snd (User_init None ''a@b.com'' ''Ann'' True None None ticking_world))))"
    by (rule updated_at_not_before_created_at [OF mono]) simp_all
  from first updated_at_not_before_created_at [OF mono c_ok u_ok, of "[Activate]"]
  show ?thesis by simp
qed

section \<open>Claims about GetUser and ListUsers\<close>

text \<open>
  C7. \<open>GetUser\<close> fails with \<open>UserNotFoundException\<close> exactly when \<open>find_by_id\<close>
  returns \<open>None\<close>, and when \<open>find_by_id\<close> returns a user it returns that user as it is.
\<close>

theorem get_user_not_found_iff_absent:
  "(is_not_found (result (get_user_execute repo uid s)) \<longleftrightarrow> find_by_id repo uid s = Inr None)
   \<and> (\<forall>u. find_by_id repo uid s = Inr (Some u) \<longrightarrow>
          result (get_user_execute repo uid s) = Inr u)"
  by (simp add: get_user_execute_def is_not_found_def split: sum.splits option.splits)

theorem get_user_not_found_iff_absent_witness:
  "find_by_id memory_repository 77 [ann] = Inr (Some ann)
   \<and> result (get_user_execute memory_repository 77 [ann]) = Inr ann
   \<and> find_by_id memory_repository 78 [ann] = Inr None
   \<and> is_not_found (result (get_user_execute memory_repository 78 [ann]))"
proof -
  have a: "find_by_id memory_repository 77 [ann] = Inr (Some ann)"
    by (simp add: memory_repository_def ann_def)
  have b: "find_by_id memory_repository 78 [ann] = Inr None"
    by (simp add: memory_repository_def ann_def)
  show ?thesis
    using a b get_user_not_found_iff_absent [of memory_repository 77 "[ann]"]
      get_user_not_found_iff_absent [of memory_repository 78 "[ann]"]
    by simp
qed

text \<open>
  C10. \<open>GetUser\<close> calls \<open>find_by_id\<close> once and nothing else, \<open>ListUsers\<close> calls
  \<open>find_all\<close> once and nothing else; neither calls \<open>save\<close>, \<open>update\<close> or \<open>delete\<close>,
  and the state of the storage after either is the state before it, whatever they return.
\<close>

theorem get_user_and_list_users_only_read:
  "calls (get_user_execute repo uid s) = [FindByID uid]
   \<and> storage (get_user_execute repo uid s) = s
   \<and> calls (get_all_users_execute repo s) = [FindAll]
   \<and> storage (get_all_users_execute repo s) = s
   \<and> list_all is_read (calls (get_user_execute repo uid s))
   \<and> list_all is_read (calls (get_all_users_execute repo s))"
  by (simp add: get_user_execute_def get_all_users_execute_def
        split: sum.splits option.splits)

section \<open>Claims about CreateUser\<close>

text \<open>
  C1. For \<open>a@b.com\<close> and \<open>Ann\<close>, with nothing on record and a clock that advances by
  one microsecond at every reading, \<open>CreateUser\<close> succeeds and returns an active entity
  with the identifier drawn at this call, but its \<open>created_at\<close> is 1000 and its
  \<open>updated_at\<close> is 1001: the entity reads the clock once for each of them, two readings
  in all, so the two are not one instant.
\<close>

theorem create_user_timestamps_differ:
  "spec_email_shape ''a@b.com''
   \<and> find_by_email memory_repository ''a@b.com'' [] = Inr None
   \<and> result (fst (create_user_execute memory_repository ''a@b.com'' ''Ann'' [] ticking_world))
       = Inr \<lparr>user_id = 1, email = ''a@b.com'', name = ''Ann'', is_active = True,
              created_at = 1000, updated_at = 1001\<rparr>
   \<and> created_at (new_user ''a@b.com'' ''Ann'' ticking_world)
       \<noteq> updated_at (new_user ''a@b.com'' ''Ann'' ticking_world)
   \<and> clock_reads (snd (create_user_execute memory_repository ''a@b.com'' ''Ann'' []
        ticking_world)) = 2"
proof -
  have n: "''Ann'' \<noteq> []" by simp
  have r: "result (fst (create_user_execute memory_repository ''a@b.com'' ''Ann'' [] ticking_world))
       = Inr \<lparr>user_id = 1, email = ''a@b.com'', name = ''Ann'', is_active = True,
              created_at = 1000, updated_at = 1001\<rparr>"
    unfolding create_user_new [OF n is_valid_email_a_b_com memory_find_by_email_Nil]
    by (simp add: memory_save new_user_fields ticking_world_def)
  have d: "created_at (new_user ''a@b.com'' ''Ann'' ticking_world)
       \<noteq> updated_at (new_user ''a@b.com'' ''Ann'' ticking_world)"
    by (simp add: new_user_fields ticking_world_def)
  have c: "clock_reads (snd (create_user_execute memory_repository ''a@b.com'' ''Ann'' []
        ticking_world)) = 2"
    by (simp add: create_user_execute_def is_valid_email_a_b_com memory_find_by_email_Nil
          memory_save User_init_def uuid4_def datetime_now_def ticking_world_def)
  from r d c show ?thesis
    by (simp add: spec_email_shape_a_b_com memory_find_by_email_Nil)
qed

text \<open>
  C2. \<open>CreateUser\<close> stores the email as the caller wrote it: for
  \<open>Ann@Example.COM\<close> the entity saved and returned holds \<open>Ann@Example.COM\<close>, which is
  not normalized, while \<open>UserFactory.create_user\<close> stores \<open>ann@example.com\<close> for the same
  arguments.
\<close>

theorem create_user_keeps_email_as_given:
  "result (fst (create_user_execute memory_repository ''Ann@Example.COM'' ''Ann'' []
       ticking_world))
     = Inr \<lparr>user_id = 1, email = ''Ann@Example.COM'', name = ''Ann'', is_active = True,
            created_at = 1000, updated_at = 1001\<rparr>
   \<and> calls (fst (create_user_execute memory_repository ''Ann@Example.COM'' ''Ann'' []
       ticking_world))
     = [FindByEmail ''Ann@Example.COM'',
        Save \<lparr>user_id = 1, email = ''Ann@Example.COM'', name = ''Ann'', is_active = True,
              created_at = 1000, updated_at = 1001\<rparr>]
   \<and> \<not> spec_normalized ''Ann@Example.COM''
   \<and> fst (factory_create_user ''Ann@Example.COM'' ''Ann'' True ticking_world)
     = Inr \<lparr>user_id = 1, email = ''ann@example.com'', name = ''Ann'', is_active = True,
            created_at = 1000, updated_at = 1001\<rparr>"
proof -
  have n: "''Ann'' \<noteq> []" by simp
  have a: "fst (create_user_execute memory_repository ''Ann@Example.COM'' ''Ann'' [] ticking_world)
     = \<lparr>result = Inr \<lparr>user_id = 1, email = ''Ann@Example.COM'', name = ''Ann'',
                       is_active = True, created_at = 1000, updated_at = 1001\<rparr>,
        calls = [FindByEmail ''Ann@Example.COM'',
          Save \<lparr>user_id = 1, email = ''Ann@Example.COM'', name = ''Ann'', is_active = True,
              created_at = 1000, updated_at = 1001\<rparr>],
        storage = [\<lparr>user_id = 1, email = ''Ann@Example.COM'', name = ''Ann'',
                       is_active = True, created_at = 1000, updated_at = 1001\<rparr>]\<rparr>"
    unfolding create_user_new [OF n is_valid_email_mixed_case memory_find_by_email_Nil]
    by (simp add: memory_save new_user_fields ticking_world_def)
  have f: "fst (factory_create_user ''Ann@Example.COM'' ''Ann'' True ticking_world)
     = Inr \<lparr>user_id = 1, email = ''ann@example.com'', name = ''Ann'', is_active = True,
            created_at = 1000, updated_at = 1001\<rparr>"
    by (subst factory_create_user_fields)
       (simp_all add: strip_mixed_case strip_Ann lower_mixed_case ticking_world_def)
  from a f not_normalized_mixed_case show ?thesis by simp
qed

text \<open>
  C3. \<open>CreateUser\<close> accepts a name of one space: it saves and returns a user with that
  name, while \<open>UserFactory.create_user\<close> raises \<open>Name is required\<close> for the same
  arguments.
\<close>

theorem create_user_accepts_blank_name:
  "spec_whitespace_only '' ''
   \<and> result (fst (create_user_execute memory_repository ''a@b.com'' '' '' [] ticking_world))
     = Inr \<lparr>user_id = 1, email = ''a@b.com'', name = '' '', is_active = True,
            created_at = 1000, updated_at = 1001\<rparr>
   \<and> storage (fst (create_user_execute memory_repository ''a@b.com'' '' '' [] ticking_world))
     = [\<lparr>user_id = 1, email = ''a@b.com'', name = '' '', is_active = True,
            created_at = 1000, updated_at = 1001\<rparr>]
   \<and> fst (factory_create_user ''a@b.com'' '' '' True ticking_world)
     = Inl (ValueError ''Name is required'')"
proof -
  have n: "'' '' \<noteq> []" by simp
  have a: "fst (create_user_execute memory_repository ''a@b.com'' '' '' [] ticking_world)
     = \<lparr>result = Inr \<lparr>user_id = 1, email = ''a@b.com'', name = '' '',
                       is_active = True, created_at = 1000, updated_at = 1001\<rparr>,
        calls = [FindByEmail ''a@b.com'',
          Save \<lparr>user_id = 1, email = ''a@b.com'', name = '' '', is_active = True,
              created_at = 1000, updated_at = 1001\<rparr>],
        storage = [\<lparr>user_id = 1, email = ''a@b.com'', name = '' '',
                       is_active = True, created_at = 1000, updated_at = 1001\<rparr>]\<rparr>"
    unfolding create_user_new [OF n is_valid_email_a_b_com memory_find_by_email_Nil]
    by (simp add: memory_save new_user_fields ticking_world_def)
  have f: "fst (factory_create_user ''a@b.com'' '' '' True ticking_world)
     = Inl (ValueError ''Name is required'')"
    by (rule factory_create_user_blank_name) (simp_all add: strip_a_b_com strip_blank)
  from a f whitespace_only_blank show ?thesis by simp
qed

text \<open>
  C4. The claim fails for an empty name: the email is on record, and the use case raises
  \<open>InvalidUserDataException\<close>, not \<open>UserAlreadyExistsException\<close>, since it validates
  before it looks up.
\<close>

theorem existing_email_empty_name_counterexample:
  "find_by_email memory_repository ''a@b.com'' [ann] = Inr (Some ann)
   \<and> result (fst (create_user_execute memory_repository ''a@b.com'' [] [ann] ticking_world)) =
       Inl (InvalidUserDataException ''Email and name are required'')
   \<and> \<not> is_already_exists
         (result (fst (create_user_execute memory_repository ''a@b.com'' [] [ann] ticking_world)))"
  by (simp add: memory_find_ann create_user_empty is_already_exists_def)

text \<open>
  C4, as amended. For a non-empty name and an email of the shape \<open>local@domain.tld\<close>
  for which the lookup returns a user, \<open>CreateUser\<close> fails with
  \<open>UserAlreadyExistsException\<close>; its only call on the port is the lookup, it makes no
  write, and the state of the storage is unchanged.
\<close>

theorem create_user_existing_email:
  assumes "nm \<noteq> []" and "spec_email_shape em"
    and "find_by_email repo em s = Inr (Some existing)"
  shows "result (fst (create_user_execute repo em nm s w)) =
           Inl (UserAlreadyExistsException ''Email is already registered'')
       \<and> is_already_exists (result (fst (create_user_execute repo em nm s w)))
       \<and> calls (fst (create_user_execute repo em nm s w)) = [FindByEmail em]
       \<and> n_writes (calls (fst (create_user_execute repo em nm s w))) = 0
       \<and> storage (fst (create_user_execute repo em nm s w)) = s"
  using assms
  by (simp add: create_user_exists spec_email_shape_valid is_already_exists_def n_writes_def)

theorem create_user_existing_email_witness:
  "result (fst (create_user_execute memory_repository ''a@b.com'' ''Ann2'' [ann] ticking_world)) =
     Inl (UserAlreadyExistsException ''Email is already registered'')
   \<and> calls (fst (create_user_execute memory_repository ''a@b.com'' ''Ann2'' [ann] ticking_world))
       = [FindByEmail ''a@b.com'']
   \<and> storage (fst (create_user_execute memory_repository ''a@b.com'' ''Ann2'' [ann] ticking_world))
       = [ann]"
proof -
  have n: "''Ann2'' \<noteq> []" by simp
  show ?thesis
    using create_user_existing_email [OF n spec_email_shape_a_b_com memory_find_ann, of ticking_world]
    by simp
qed

text \<open>
  C5. The claim fails for an invocation that is rejected by validation: it makes no call on
  the port at all, neither one read nor one write.
\<close>

theorem rejected_input_no_calls_counterexample:
  "calls (fst (create_user_execute memory_repository ''a@b.com'' [] [] ticking_world)) = []
   \<and> n_reads (calls (fst (create_user_execute memory_repository ''a@b.com'' [] [] ticking_world))) = 0
   \<and> n_writes (calls (fst (create_user_execute memory_repository ''a@b.com'' [] [] ticking_world))) = 0"
  by (simp add: create_user_empty n_reads_def n_writes_def)

text \<open>
  C5, as amended. Every invocation of \<open>CreateUser\<close> makes at most one read and at most
  one write on the port: no call, or the lookup alone, or the lookup followed by one
  \<open>save\<close>. An invocation that succeeds makes exactly the lookup and then the \<open>save\<close>.
  One that fails with \<open>InvalidUserDataException\<close> makes no call, one that fails with
  \<open>UserAlreadyExistsException\<close> makes the lookup only, and both leave the state of the
  storage unchanged.
\<close>

theorem create_user_repository_calls:
  "n_reads (calls (fst (create_user_execute repo em nm s w))) \<le> 1
   \<and> n_writes (calls (fst (create_user_execute repo em nm s w))) \<le> 1
   \<and> (calls (fst (create_user_execute repo em nm s w)) = []
      \<or> calls (fst (create_user_execute repo em nm s w)) = [FindByEmail em]
      \<or> calls (fst (create_user_execute repo em nm s w))
          = [FindByEmail em, Save (new_user em nm w)])
   \<and> (\<forall>u. result (fst (create_user_execute repo em nm s w)) = Inr u \<longrightarrow>
          calls (fst (create_user_execute repo em nm s w))
            = [FindByEmail em, Save (new_user em nm w)])
   \<and> (is_invalid_input (result (fst (create_user_execute repo em nm s w))) \<longrightarrow>
          calls (fst (create_user_execute repo em nm s w)) = []
          \<and> storage (fst (create_user_execute repo em nm s w)) = s)
   \<and> (is_already_exists (result (fst (create_user_execute repo em nm s w))) \<longrightarrow>
          calls (fst (create_user_execute repo em nm s w)) = [FindByEmail em]
          \<and> storage (fst (create_user_execute repo em nm s w)) = s)"
  using create_user_trace_cases [of repo em nm s w]
  by (elim disjE exE)
     (simp_all add: n_reads_def n_writes_def is_invalid_input_def is_already_exists_def
        split: sum.splits)

theorem create_user_repository_calls_witness:
  "result (fst (create_user_execute memory_repository ''a@b.com'' ''Ann'' [] ticking_world))
     = Inr (new_user ''a@b.com'' ''Ann'' ticking_world)
   \<and> calls (fst (create_user_execute memory_repository ''a@b.com'' ''Ann'' [] ticking_world))
     = [FindByEmail ''a@b.com'', Save (new_user ''a@b.com'' ''Ann'' ticking_world)]
   \<and> is_invalid_input
       (result (fst (create_user_execute memory_repository ''a@b'' ''Ann'' [ann] ticking_world)))
   \<and> storage (fst (create_user_execute memory_repository ''a@b'' ''Ann'' [ann] ticking_world))
     = [ann]"
proof -
  have n: "''Ann'' \<noteq> []" by simp
  have r: "result (fst (create_user_execute memory_repository ''a@b.com'' ''Ann'' [] ticking_world))
     = Inr (new_user ''a@b.com'' ''Ann'' ticking_world)"
    unfolding create_user_new [OF n is_valid_email_a_b_com memory_find_by_email_Nil]
    by (simp add: memory_save)
  have "\<not> is_valid_email ''a@b''"
    using is_valid_email_has_dot [of "''a@b''"] by auto
  then have i: "is_invalid_input
       (result (fst (create_user_execute memory_repository ''a@b'' ''Ann'' [ann] ticking_world)))"
    by (simp add: create_user_bad_email is_invalid_input_def)
  show ?thesis
    using r i create_user_repository_calls
        [of memory_repository "''a@b.com''" "''Ann''" "[]" ticking_world]
      create_user_repository_calls
        [of memory_repository "''a@b''" "''Ann''" "[ann]" ticking_world]
    by simp
qed




end
